theory Spec2Isabelle
  imports Complex_Main "HOL-Library.Word"
begin

section \<open>Constants of main.go (lines 31-44)\<close>

text \<open>
  The untyped Go constants are used as \<open>float64\<close> in positions and speeds and as \<open>int\<close> for
  the gauge. A \<open>float64\<close> is modelled as a \<open>real\<close>: rounding, infinities and NaN are not
  part of the model, and every statement below that reads a coordinate only compares it
  or adds to it. The tick counters are \<open>uint64\<close> and wrap as such. Go's \<open>int\<close> has 64
  bits here. The hit streak and the score have no bound of their own, so their arithmetic
  (\<open>r.hitCountInRush++\<close>, \<open>10 * r.hitCountInRush\<close>, \<open>r.score += gain\<close>) is modelled with its
  wrap-around: \<open>int64 x\<close> is what a Go \<open>int\<close> holds after an operation whose exact result
  is \<open>x\<close>. The gauge is incremented and decremented without it: on every run of a runner
  the gauge stays within \<open>0..300\<close>, as is proved below.
\<close>

definition int64 :: "int \<Rightarrow> int" where
  "int64 x = (x + 2 ^ 63) mod 2 ^ 64 - 2 ^ 63"

definition screenWidth :: real where "screenWidth = 640"
definition screenHeight :: real where "screenHeight = 480"
definition rhinoX :: real where "rhinoX = 170"
definition rhinoY :: real where "rhinoY = 370"
definition rhinoR :: real where "rhinoR = 10"
definition rhinoSpeed :: real where "rhinoSpeed = 2.5"
definition rhinoRushSpeed :: real where "rhinoRushSpeed = 6"
definition enemyR :: real where "enemyR = 8"
definition gageMax :: int where "gageMax = 300"
definition cameraY :: real where "cameraY = - 100"
definition screenZ :: real where "screenZ = 50"

section \<open>Vectors (package mathutil)\<close>

text \<open>
  Package \<open>mathutil\<close> is an external library. Its vectors are immutable values with
  component-wise \<open>Add\<close> and \<open>Sub\<close>, each returning a new vector; the pointers of the Go
  code are therefore modelled as values. The fields of the 3D vector carry the suffix
  \<open>3\<close>, since two records cannot share a field name.
\<close>

record Vector2D =
  X :: real
  Y :: real

record Vector3D =
  X3 :: real
  Y3 :: real
  Z3 :: real

definition NewVector2D :: "real \<Rightarrow> real \<Rightarrow> Vector2D" where
  "NewVector2D x y = \<lparr>X = x, Y = y\<rparr>"

definition NewVector3D :: "real \<Rightarrow> real \<Rightarrow> real \<Rightarrow> Vector3D" where
  "NewVector3D x y z = \<lparr>X3 = x, Y3 = y, Z3 = z\<rparr>"

definition Add2D :: "Vector2D \<Rightarrow> Vector2D \<Rightarrow> Vector2D" where
  "Add2D v u = NewVector2D (X v + X u) (Y v + Y u)"

definition Sub2D :: "Vector2D \<Rightarrow> Vector2D \<Rightarrow> Vector2D" where
  "Sub2D v u = NewVector2D (X v - X u) (Y v - Y u)"

definition Add3D :: "Vector3D \<Rightarrow> Vector3D \<Rightarrow> Vector3D" where
  "Add3D v u = NewVector3D (X3 v + X3 u) (Y3 v + Y3 u) (Z3 v + Z3 u)"

text \<open>
  The partially known world point handed to \<open>ConvertCoordinateScreenToWorld\<close>: a
  component that the Go code passes as \<open>math.NaN()\<close> is \<open>None\<close>.
\<close>

type_synonym Hint3D = "real option \<times> real option \<times> real option"

section \<open>Effects, sounds and the other collaborators\<close>

datatype color = White | RGBA "8 word" "8 word" "8 word" "8 word"

datatype font = fontFaceL | fontFaceM | fontFaceS

record SplashEffectOptions =
  Count :: int
  Color :: color
  Size :: real
  AngularVelocity :: real
  AngleMin :: real
  AngleMax :: real
  Speed :: real
  Ay :: real

record GainEffectOptions =
  Gain :: int
  Face :: font

datatype audio = chargeAudioData | runAudioData | hitAudioData

text \<open>
  What \<open>GameRunner.update\<close> calls and \<open>src/\<close> does not hold is a parameter of the model,
  one field per function, under the name the Go code calls it by:
  the random source \<open>r.game.random\<close> (\<open>math/rand/v2\<close>), whose state has the type \<open>'g\<close>
  and is returned advanced by every draw; the collision test and the two projections of
  \<open>mathutil\<close>; and package \<open>effectutil\<close>, whose effects have the type \<open>'e\<close>. A splash
  effect is given the random source (its \<open>Random\<close> option), so creating and updating an
  effect may draw from it.
\<close>

record ('g, 'e) externals =
  rand_Int :: "'g \<Rightarrow> int \<times> 'g"
  rand_Float64 :: "'g \<Rightarrow> real \<times> 'g"
  CapsulesCollide ::
    "Vector2D \<Rightarrow> Vector2D \<Rightarrow> real \<Rightarrow> Vector2D \<Rightarrow> Vector2D \<Rightarrow> real \<Rightarrow> bool"
  ConvertCoordinateWorldToScreen ::
    "Vector3D \<Rightarrow> real \<Rightarrow> real \<Rightarrow> real \<Rightarrow> real \<Rightarrow> Vector2D"
  ConvertCoordinateScreenToWorld ::
    "Vector2D \<Rightarrow> Hint3D \<Rightarrow> real \<Rightarrow> real \<Rightarrow> real \<Rightarrow> real \<Rightarrow> Vector3D"
  NewSplashEffect :: "real \<Rightarrow> real \<Rightarrow> int \<Rightarrow> SplashEffectOptions \<Rightarrow> 'g \<Rightarrow> 'e \<times> 'g"
  NewGainEffect :: "real \<Rightarrow> real \<Rightarrow> int \<Rightarrow> GainEffectOptions \<Rightarrow> 'e"
  Effect_Update :: "'e \<Rightarrow> 'g \<Rightarrow> 'e \<times> 'g"
  Effect_Finished :: "'e \<Rightarrow> bool"

text \<open>
  \<open>update\<close> reads its argument \<open>touches\<close> only through three predicates of package
  \<open>touchutil\<close>, which is not under \<open>src/\<close>. A snapshot of the touches is represented by
  the three answers, each field named after the predicate that gives it.
\<close>

record Touches =
  AnyTouchesJustTouched :: bool
  AnyTouchesActive :: bool
  AllTouchesJustReleased :: bool

section \<open>Enemy (lines 87-112)\<close>

text \<open>
  \<open>hitV\<close> is a nil pointer until the enemy is hit. The back-reference \<open>runner\<close> is read
  for the rush flag only, which \<open>Enemy_update\<close> takes as its first argument. Reading
  \<open>hitV\<close> while it is nil panics in Go: the result is \<open>None\<close>.
\<close>

record Enemy =
  ticks_Enemy :: "64 word"
  pos :: Vector2D
  prevPos :: Vector2D
  hitV :: "Vector2D option"
  hit :: bool

definition Enemy_update :: "bool \<Rightarrow> Enemy \<Rightarrow> Enemy option" where
  "Enemy_update runner_rush e0 =
    (let e = e0\<lparr>ticks_Enemy := ticks_Enemy e0 + 1\<rparr> in
     if \<not> hit e then
       let e1 = e\<lparr>prevPos := pos e\<rparr>;
           speed = 1.5 + (if runner_rush then rhinoRushSpeed else rhinoSpeed)
       in Some (e1\<lparr>pos := Add2D (pos e1) (NewVector2D (- speed) 0)\<rparr>)
     else
       (case hitV e of
          None \<Rightarrow> None
        | Some v \<Rightarrow>
            Some (e\<lparr>pos := Add2D (pos e) v, hitV := Some (Add2D v (NewVector2D 0 1))\<rparr>)))"

section \<open>BackgroundObject (lines 128-143)\<close>

record BackgroundObject =
  typ_Object :: string
  pos_Object :: Vector3D

definition BackgroundObject_update :: "bool \<Rightarrow> BackgroundObject \<Rightarrow> BackgroundObject" where
  "BackgroundObject_update runner_rush ob =
    (let speed = (if runner_rush then rhinoRushSpeed else rhinoSpeed);
         v = NewVector3D (- speed) 0 0
     in ob\<lparr>pos_Object := Add3D (pos_Object ob) v\<rparr>)"

section \<open>GameRunner (lines 173-186)\<close>

text \<open>
  The fields of the Go struct, with \<open>random\<close> for the state of \<open>r.game.random\<close> and
  \<open>played\<close> for the sounds handed to the audio context so far, each with its volume
  (the Go code plays them and keeps no record).
\<close>

record ('g, 'e) GameRunner =
  ticks :: "64 word"
  mute :: bool
  gameOver :: bool
  gage :: int
  rush :: bool
  hitCountInRush :: int
  ticksAtHit :: "64 word"
  enemies :: "Enemy list"
  objects :: "BackgroundObject list"
  effects :: "'e list"
  score :: int
  random :: 'g
  played :: "(audio \<times> real) list"

definition play :: "audio \<Rightarrow> real \<Rightarrow> ('g, 'e) GameRunner \<Rightarrow> ('g, 'e) GameRunner" where
  "play a volume r = r\<lparr>played := played r @ [(a, volume)]\<rparr>"

subsection \<open>createBackgroundObject (lines 188-216)\<close>

definition createBackgroundObject ::
  "('g, 'e) externals \<Rightarrow> string \<Rightarrow> real \<Rightarrow> 'g \<Rightarrow> BackgroundObject \<times> 'g" where
  "createBackgroundObject env typ screenX g =
    (let (y, zOffset, zRange) =
           (if typ = ''tree'' \<or> typ = ''weed'' then (0, 20, 700)
            else if typ = ''cloud'' then (- 50000, 9999, 99999)
            else (0, 0, 0));
         (f, g1) = rand_Float64 env g;
         wPos = NewVector3D 0 y (zOffset + f * zRange);
         sPos = ConvertCoordinateWorldToScreen env wPos cameraY screenZ screenWidth screenHeight;
         sPos1 = sPos\<lparr>X := screenX\<rparr>;
         p = ConvertCoordinateScreenToWorld env sPos1 (None, None, Some (Z3 wPos))
               cameraY screenZ screenWidth screenHeight
     in (\<lparr>typ_Object = typ, pos_Object = p\<rparr>, g1))"

definition appendObject ::
  "('g, 'e) externals \<Rightarrow> string \<Rightarrow> real \<Rightarrow> ('g, 'e) GameRunner \<Rightarrow> ('g, 'e) GameRunner" where
  "appendObject env typ screenX r =
    (let (ob, g) = createBackgroundObject env typ screenX (random r)
     in r\<lparr>objects := objects r @ [ob], random := g\<rparr>)"

subsection \<open>update: the gauge and the rush (lines 225-280)\<close>

definition chargeStep :: "('g, 'e) GameRunner \<Rightarrow> Touches \<Rightarrow> ('g, 'e) GameRunner" where
  "chargeStep r0 touches =
    (let r1 =
           (if AnyTouchesJustTouched touches \<or> (gage r0 > 0 \<and> AnyTouchesActive touches) then
              let ra = (if \<not> mute r0 \<and> gage r0 = 0 then play chargeAudioData 1 r0 else r0);
                  rb = ra\<lparr>gage := gage ra + 1\<rparr>
              in (if gage rb > gageMax then rb\<lparr>gage := gageMax\<rparr> else rb)
            else r0);
         r2 = (if gage r1 > 0 \<and> AllTouchesJustReleased touches then r1\<lparr>rush := True\<rparr> else r1)
     in (if \<not> mute r2 \<and> ticks r2 mod 20 = 0 then play runAudioData 0.1 r2 else r2))"

definition rushSplashOptions :: SplashEffectOptions where
  "rushSplashOptions =
    \<lparr>Count = 3, Color = White, Size = 10, AngularVelocity = pi / 20,
     AngleMin = pi, AngleMax = pi * 4 / 3, Speed = 8, Ay = 0.3\<rparr>"

definition rushStep :: "('g, 'e) externals \<Rightarrow> ('g, 'e) GameRunner \<Rightarrow> ('g, 'e) GameRunner" where
  "rushStep env r0 =
    (let r1 = r0\<lparr>gage := gage r0 - 1\<rparr>;
         r2 =
           (if gage r1 > 0 \<and> gage r1 mod 10 = 0 then
              let (s, g) = NewSplashEffect env (rhinoX - 20) rhinoY 15 rushSplashOptions (random r1)
              in r1\<lparr>effects := effects r1 @ [s], random := g\<rparr>
            else r1);
         r3 = (if gage r2 \<le> 0 then r2\<lparr>rush := False, gage := 0, hitCountInRush := 0\<rparr> else r2)
     in (if \<not> mute r3 \<and> ticks r3 mod 10 = 0 then play runAudioData 0.1 r3 else r3))"

definition gaugeStep ::
  "('g, 'e) externals \<Rightarrow> ('g, 'e) GameRunner \<Rightarrow> Touches \<Rightarrow> ('g, 'e) GameRunner" where
  "gaugeStep env r touches = (if \<not> rush r then chargeStep r touches else rushStep env r)"

subsection \<open>update: spawning (lines 282-305)\<close>

definition spawnEnemy :: "('g, 'e) externals \<Rightarrow> ('g, 'e) GameRunner \<Rightarrow> ('g, 'e) GameRunner" where
  "spawnEnemy env r =
    (if 120 < ticks r then
       let (n, g) = rand_Int env (random r);
           r1 = r\<lparr>random := g\<rparr>
       in (if n mod 60 = 0 then
             let p = NewVector2D (screenWidth + 50) rhinoY;
                 e = \<lparr>ticks_Enemy = 0, pos = p, prevPos = p, hitV = None, hit = False\<rparr>
             in r1\<lparr>enemies := enemies r1 @ [e]\<rparr>
           else r1)
     else r)"

definition spawnByChance ::
  "('g, 'e) externals \<Rightarrow> string \<Rightarrow> ('g, 'e) GameRunner \<Rightarrow> ('g, 'e) GameRunner" where
  "spawnByChance env typ r =
    (let (n, g) = rand_Int env (random r);
         r1 = r\<lparr>random := g\<rparr>
     in (if n mod 60 = 0 then appendObject env typ (screenWidth + 100) r1 else r1))"

definition spawnStep :: "('g, 'e) externals \<Rightarrow> ('g, 'e) GameRunner \<Rightarrow> ('g, 'e) GameRunner" where
  "spawnStep env r =
    spawnByChance env ''cloud''
      (appendObject env ''weed'' (screenWidth + 100)
        (spawnByChance env ''tree'' (spawnEnemy env r)))"

subsection \<open>update: collisions and scoring (lines 307-365)\<close>

definition hitSplashOptions :: SplashEffectOptions where
  "hitSplashOptions =
    \<lparr>Count = 5, Color = RGBA 0xff 0xff 0 0xff, Size = 10, AngularVelocity = pi / 20,
     AngleMin = - pi / 2, AngleMax = pi / 4, Speed = 10, Ay = 0.2\<rparr>"

text \<open>The test of line 310: the enemy is not yet hit and its capsule meets the player's.\<close>

definition collides :: "('g, 'e) externals \<Rightarrow> Enemy \<Rightarrow> bool" where
  "collides env e =
    (\<not> hit e \<and>
     CapsulesCollide env (NewVector2D rhinoX rhinoY) (NewVector2D 0 0) rhinoR
       (prevPos e) (Sub2D (pos e) (prevPos e)) enemyR)"

text \<open>The branch taken on a collision while rushing (lines 319-358).\<close>

definition hitEnemy ::
  "('g, 'e) externals \<Rightarrow> ('g, 'e) GameRunner \<Rightarrow> Enemy \<Rightarrow> ('g, 'e) GameRunner \<times> Enemy" where
  "hitEnemy env r0 e0 =
    (let (f1, g1) = rand_Float64 env (random r0);
         (f2, g2) = rand_Float64 env g1;
         e1 = e0\<lparr>hitV := Some (NewVector2D (5 + 10 * f1) (- (10 + 20 * f2))), hit := True\<rparr>;
         r1 = r0\<lparr>ticksAtHit := ticks r0, hitCountInRush := int64 (hitCountInRush r0 + 1)\<rparr>;
         gain = int64 (10 * hitCountInRush r1);
         r2 = r1\<lparr>score := int64 (score r1 + gain)\<rparr>;
         (f3, g3) = rand_Float64 env g2;
         (f4, g4) = rand_Float64 env g3;
         r3 = r2\<lparr>effects := effects r2 @
                [NewGainEffect env (rhinoX + 50 + (f3 - 0.5) * 100) (rhinoY - 30 + (f4 - 0.5) * 100)
                   60 \<lparr>Gain = gain, Face = fontFaceM\<rparr>]\<rparr>;
         (s, g5) = NewSplashEffect env (rhinoX + 50) (rhinoY - 30) 999 hitSplashOptions g4;
         r4 = r3\<lparr>effects := effects r3 @ [s], random := g5\<rparr>
     in ((if \<not> mute r4 then play hitAudioData 1 r4 else r4), e1))"

text \<open>One pass of the loop body: the collision test, then \<open>e.update()\<close>.\<close>

definition enemyStep ::
  "('g, 'e) externals \<Rightarrow> ('g, 'e) GameRunner \<Rightarrow> Enemy \<Rightarrow> (('g, 'e) GameRunner \<times> Enemy) option" where
  "enemyStep env r e =
    (let (r1, e1) =
           (if collides env e then
              (if rush r then hitEnemy env r e else (r\<lparr>gameOver := True\<rparr>, e))
            else (r, e))
     in (case Enemy_update (rush r1) e1 of
           None \<Rightarrow> None
         | Some e2 \<Rightarrow> Some (r1, e2)))"

text \<open>
  The loop over \<open>r.enemies\<close>. The runner is threaded through the passes; the enemies
  already updated are returned beside it and stored by \<open>collisionStep\<close>.
\<close>

fun enemiesLoop ::
  "('g, 'e) externals \<Rightarrow> ('g, 'e) GameRunner \<Rightarrow> Enemy list \<Rightarrow>
     (('g, 'e) GameRunner \<times> Enemy list) option" where
  "enemiesLoop env r [] = Some (r, [])"
| "enemiesLoop env r (e # es) =
    (case enemyStep env r e of
       None \<Rightarrow> None
     | Some (r1, e1) \<Rightarrow>
         (case enemiesLoop env r1 es of
            None \<Rightarrow> None
          | Some (r2, es2) \<Rightarrow> Some (r2, e1 # es2)))"

definition collisionStep ::
  "('g, 'e) externals \<Rightarrow> ('g, 'e) GameRunner \<Rightarrow> ('g, 'e) GameRunner option" where
  "collisionStep env r =
    (case enemiesLoop env r (enemies r) of
       None \<Rightarrow> None
     | Some (r1, es) \<Rightarrow> Some (r1\<lparr>enemies := es\<rparr>))"

subsection \<open>update: moving objects and effects (lines 367-373)\<close>

fun effectsLoop :: "('g, 'e) externals \<Rightarrow> 'g \<Rightarrow> 'e list \<Rightarrow> 'e list \<times> 'g" where
  "effectsLoop env g [] = ([], g)"
| "effectsLoop env g (x # xs) =
    (let (x1, g1) = Effect_Update env x g;
         (xs1, g2) = effectsLoop env g1 xs
     in (x1 # xs1, g2))"

definition moveStep :: "('g, 'e) externals \<Rightarrow> ('g, 'e) GameRunner \<Rightarrow> ('g, 'e) GameRunner" where
  "moveStep env r =
    (let r1 = r\<lparr>objects := map (BackgroundObject_update (rush r)) (objects r)\<rparr>;
         (xs, g) = effectsLoop env (random r1) (effects r1)
     in r1\<lparr>effects := xs, random := g\<rparr>)"

subsection \<open>update: pruning in place (lines 375-398)\<close>

text \<open>
  \<open>_enemies := r.enemies[:0]\<close> is a slice of length 0 over the array of \<open>r.enemies\<close>, and
  \<open>append\<close> writes into that array: \<open>compaction keep arr i k\<close> is the loop at index \<open>i\<close>
  with \<open>k\<close> elements kept so far. The kept elements occupy \<open>arr[0..k)\<close>, and \<open>k \<le> i\<close>
  stays below the capacity, so \<open>append\<close> stores at index \<open>k\<close> and never reallocates.
  The loop reads \<open>arr[i]\<close> from the same array it writes to.
\<close>

function compaction :: "('a \<Rightarrow> bool) \<Rightarrow> 'a list \<Rightarrow> nat \<Rightarrow> nat \<Rightarrow> 'a list" where
  "compaction keep arr i k =
    (if i < length arr then
       (if keep (arr ! i) then compaction keep (arr[k := arr ! i]) (i + 1) (k + 1)
        else compaction keep arr (i + 1) k)
     else take k arr)"
  by pat_completeness auto
termination
  by (relation "measure (\<lambda>(keep, arr, i, k). length arr - i)") auto

definition keepEnemy :: "Enemy \<Rightarrow> bool" where
  "keepEnemy e = (Y (pos e) < screenHeight + 100)"

definition keepObject :: "('g, 'e) externals \<Rightarrow> BackgroundObject \<Rightarrow> bool" where
  "keepObject env ob =
    (X (ConvertCoordinateWorldToScreen env (pos_Object ob) cameraY screenZ screenWidth screenHeight)
       > - 100)"

definition keepEffect :: "('g, 'e) externals \<Rightarrow> 'e \<Rightarrow> bool" where
  "keepEffect env x = (\<not> Effect_Finished env x)"

definition pruneStep :: "('g, 'e) externals \<Rightarrow> ('g, 'e) GameRunner \<Rightarrow> ('g, 'e) GameRunner" where
  "pruneStep env r =
    r\<lparr>enemies := compaction keepEnemy (enemies r) 0 0,
      objects := compaction (keepObject env) (objects r) 0 0,
      effects := compaction (keepEffect env) (effects r) 0 0\<rparr>"

subsection \<open>update: the final sort (lines 400-402)\<close>

text \<open>
  \<open>sort.Slice\<close> of the standard library orders the slice by the \<open>less\<close> function it is
  given, here \<open>pos.Z\<close> of the first greater than \<open>pos.Z\<close> of the second. It is not stable:
  the source does not determine the order of objects of equal \<open>Z\<close>. The model sorts by
  insertion on the key \<open>- Z\<close>, which is one of the results \<open>sort.Slice\<close> may give.
\<close>

definition sortStep :: "('g, 'e) GameRunner \<Rightarrow> ('g, 'e) GameRunner" where
  "sortStep r = r\<lparr>objects := sort_key (\<lambda>ob. - Z3 (pos_Object ob)) (objects r)\<rparr>"

subsection \<open>update (lines 218-403)\<close>

text \<open>The runner as the collision loop finds it: ticked, gauge handled, spawns appended.\<close>

definition beforeCollisions ::
  "('g, 'e) externals \<Rightarrow> ('g, 'e) GameRunner \<Rightarrow> Touches \<Rightarrow> ('g, 'e) GameRunner" where
  "beforeCollisions env r touches =
    spawnStep env (gaugeStep env (r\<lparr>ticks := ticks r + 1\<rparr>) touches)"

definition update ::
  "('g, 'e) externals \<Rightarrow> ('g, 'e) GameRunner \<Rightarrow> Touches \<Rightarrow> ('g, 'e) GameRunner option" where
  "update env r touches =
    (if gameOver r then Some r
     else
       (case collisionStep env (beforeCollisions env r touches) of
          None \<Rightarrow> None
        | Some r1 \<Rightarrow> Some (sortStep (pruneStep env (moveStep env r1)))))"

text \<open>A sequence of ticks of one runner, one snapshot of the touches per tick.\<close>

fun run ::
  "('g, 'e) externals \<Rightarrow> ('g, 'e) GameRunner \<Rightarrow> Touches list \<Rightarrow> ('g, 'e) GameRunner option" where
  "run env r [] = Some r"
| "run env r (t # ts) =
    (case update env r t of
       None \<Rightarrow> None
     | Some r1 \<Rightarrow> run env r1 ts)"

section \<open>draw (lines 471-497)\<close>

text \<open>
  The draw pass as the sequence of calls it makes on the destination image, one
  constructor per callee. \<open>rhinoZ\<close> (lines 46-53) is computed once by
  \<open>mathutil.ConvertCoordinateScreenToWorld\<close> and is a parameter here.
\<close>

datatype 'e drawCall =
  drawBackground
  | draw_Object BackgroundObject
  | drawRhino
  | drawGage
  | draw_Enemy Enemy
  | draw_Effect 'e

definition draw :: "real \<Rightarrow> ('g, 'e) GameRunner \<Rightarrow> 'e drawCall list" where
  "draw rhinoZ r =
    [drawBackground]
    @ map draw_Object (filter (\<lambda>ob. Z3 (pos_Object ob) > rhinoZ) (objects r))
    @ [drawRhino, drawGage]
    @ map draw_Enemy (enemies r)
    @ map draw_Object (filter (\<lambda>ob. Z3 (pos_Object ob) \<le> rhinoZ) (objects r))
    @ map draw_Effect (effects r)"

text \<open>The background objects of a draw pass, in the order they are drawn.\<close>

fun drawnObjects :: "'e drawCall list \<Rightarrow> BackgroundObject list" where
  "drawnObjects [] = []"
| "drawnObjects (draw_Object ob # cs) = ob # drawnObjects cs"
| "drawnObjects (c # cs) = drawnObjects cs"

section \<open>newGameRunner (lines 632-654)\<close>

fun populate ::
  "('g, 'e) externals \<Rightarrow> string \<Rightarrow> nat \<Rightarrow> ('g, 'e) GameRunner \<Rightarrow> ('g, 'e) GameRunner" where
  "populate env typ 0 r = r"
| "populate env typ (Suc n) r =
    (let (f, g) = rand_Float64 env (random r);
         x = f * screenWidth
     in populate env typ n (appendObject env typ x (r\<lparr>random := g\<rparr>)))"

definition newGameRunner :: "('g, 'e) externals \<Rightarrow> 'g \<Rightarrow> bool \<Rightarrow> ('g, 'e) GameRunner" where
  "newGameRunner env g m =
    populate env ''cloud'' 20
      (populate env ''weed'' 99
        (populate env ''tree'' 99
          \<lparr>ticks = 0, mute = m, gameOver = False, gage = 0, rush = False, hitCountInRush = 0,
           ticksAtHit = 0, enemies = [], objects = [], effects = [], score = 0,
           random = g, played = []\<rparr>))"

section \<open>Predicates the statements use\<close>

text \<open>
  The enemies of a runner are well formed when every enemy marked hit has its impulse
  \<open>hitV\<close> set: \<open>Enemy_update\<close> reads it for exactly those enemies.
\<close>

definition hitVset :: "Enemy \<Rightarrow> bool" where
  "hitVset e = (if hit e then hitV e \<noteq> None else True)"

definition wellFormed :: "('g, 'e) GameRunner \<Rightarrow> bool" where
  "wellFormed r = list_all hitVset (enemies r)"

text \<open>Far to near: no object is followed by one of greater \<open>Z\<close>.\<close>

definition descendingZ :: "BackgroundObject list \<Rightarrow> bool" where
  "descendingZ obs = sorted_wrt (\<lambda>a b. Z3 (pos_Object a) \<ge> Z3 (pos_Object b)) obs"

text \<open>
  The score added by \<open>k\<close> hits in a row when the streak stood at \<open>h\<close> before them: the
  \<open>j\<close>-th of them adds \<open>10 * (h + j)\<close>.
\<close>

definition streakGain :: "int \<Rightarrow> nat \<Rightarrow> int" where
  "streakGain h k = sum_list (map (\<lambda>j. 10 * (h + int j)) [1..<Suc k])"




section \<open>A sample environment and sample states\<close>

text \<open>
  Concrete collaborators on which the model runs: the random source is a counter whose
  \<open>Int\<close> is the count and whose \<open>Float64\<close> is always \<open>1/20\<close>; the collision test asks
  whether the end of the second sweep lies within the two radii of the first centre; the
  projections are a pinhole camera; an effect is the number of ticks it has left.
\<close>

definition sampleEnv :: "(nat, nat) externals" where
  "sampleEnv =
    \<lparr>rand_Int = (\<lambda>g. (int g, Suc g)),
     rand_Float64 = (\<lambda>g. (1 / 20, Suc g)),
     CapsulesCollide = (\<lambda>a va ra b vb rb.
        (X b + X vb - X a) ^ 2 + (Y b + Y vb - Y a) ^ 2 \<le> (ra + rb) ^ 2),
     ConvertCoordinateWorldToScreen = (\<lambda>p cy sz w h.
        NewVector2D (w / 2 + X3 p * sz / Z3 p) (h / 2 + (Y3 p - cy) * sz / Z3 p)),
     ConvertCoordinateScreenToWorld = (\<lambda>s hint cy sz w h.
        (case snd (snd hint) of
           None \<Rightarrow> NewVector3D 0 0 0
         | Some z \<Rightarrow> NewVector3D ((X s - w / 2) * z / sz) (cy + (Y s - h / 2) * z / sz) z)),
     NewSplashEffect = (\<lambda>x y n opts g. (nat n, g)),
     NewGainEffect = (\<lambda>x y n opts. nat n),
     Effect_Update = (\<lambda>x g. (x - 1, g)),
     Effect_Finished = (\<lambda>x. x = 0)\<rparr>"

definition noTouch :: Touches where
  "noTouch = \<lparr>AnyTouchesJustTouched = False, AnyTouchesActive = False,
              AllTouchesJustReleased = False\<rparr>"

definition touchBegun :: Touches where
  "touchBegun = \<lparr>AnyTouchesJustTouched = True, AnyTouchesActive = True,
                 AllTouchesJustReleased = False\<rparr>"

definition touchHeld :: Touches where
  "touchHeld = \<lparr>AnyTouchesJustTouched = False, AnyTouchesActive = True,
                AllTouchesJustReleased = False\<rparr>"

definition touchReleased :: Touches where
  "touchReleased = \<lparr>AnyTouchesJustTouched = False, AnyTouchesActive = False,
                    AllTouchesJustReleased = True\<rparr>"

text \<open>A runner at its first tick, with no background objects; the counter stands at 1.\<close>

definition sampleRunner :: "(nat, nat) GameRunner" where
  "sampleRunner =
    \<lparr>ticks = 0, mute = True, gameOver = False, gage = 0, rush = False, hitCountInRush = 0,
     ticksAtHit = 0, enemies = [], objects = [], effects = [], score = 0,
     random = 1, played = []\<rparr>"

text \<open>The same runner after a lethal collision, with 70 points.\<close>

definition overRunner :: "(nat, nat) GameRunner" where
  "overRunner = sampleRunner\<lparr>gameOver := True, score := 70\<rparr>"

text \<open>An enemy that has just moved from \<open>x = 176\<close> to \<open>x = 172\<close>, two pixels from the player.\<close>

definition nearEnemy :: Enemy where
  "nearEnemy =
    \<lparr>ticks_Enemy = 130, pos = NewVector2D 172 370, prevPos = NewVector2D 176 370,
     hitV = None, hit = False\<rparr>"

text \<open>
  An enemy hit 34 ticks ago with the impulse \<open>(5.5, -11)\<close>, which \<open>hitEnemy\<close> gives for
  the draws \<open>1/20\<close> and \<open>1/20\<close>: it left \<open>y = 370\<close>, stands at \<open>y = 557\<close> and falls by 23
  in the next tick.
\<close>

definition fallingEnemy :: Enemy where
  "fallingEnemy =
    \<lparr>ticks_Enemy = 164, pos = NewVector2D 359 557, prevPos = NewVector2D 176 370,
     hitV = Some (NewVector2D 5.5 23), hit = True\<rparr>"

text \<open>A runner in a rush entered with a full gauge, three hits into its streak.\<close>

definition rushRunner :: "(nat, nat) GameRunner" where
  "rushRunner = sampleRunner\<lparr>gage := 300, rush := True, hitCountInRush := 3, score := 60\<rparr>"

text \<open>The two runners with the near enemy on the field.\<close>

definition idleNear :: "(nat, nat) GameRunner" where
  "idleNear = sampleRunner\<lparr>enemies := [nearEnemy]\<rparr>"

definition rushNear :: "(nat, nat) GameRunner" where
  "rushNear = rushRunner\<lparr>enemies := [nearEnemy]\<rparr>"

text \<open>The falling enemy after its next \<open>update\<close>: it stands at \<open>y = 580\<close> exactly.\<close>

definition landedEnemy :: Enemy where
  "landedEnemy =
    \<lparr>ticks_Enemy = 165, pos = NewVector2D 364.5 580, prevPos = NewVector2D 176 370,
     hitV = Some (NewVector2D 5.5 24), hit = True\<rparr>"

text \<open>The near enemy after an \<open>update\<close> at normal speed, not hit.\<close>

definition movedEnemy :: Enemy where
  "movedEnemy =
    \<lparr>ticks_Enemy = 131, pos = NewVector2D 168 370, prevPos = NewVector2D 172 370,
     hitV = None, hit = False\<rparr>"

text \<open>A runner, not rushing, with the falling enemy and the near enemy on the field.\<close>

definition fallingRunner :: "(nat, nat) GameRunner" where
  "fallingRunner = sampleRunner\<lparr>enemies := [fallingEnemy, nearEnemy]\<rparr>"

text \<open>A runner with a weed, a far tree and a nearer tree, in that order.\<close>

definition objectsRunner :: "(nat, nat) GameRunner" where
  "objectsRunner =
    sampleRunner\<lparr>objects :=
      [\<lparr>typ_Object = ''weed'', pos_Object = NewVector3D 0 0 30\<rparr>,
       \<lparr>typ_Object = ''tree'', pos_Object = NewVector3D 100 0 500\<rparr>,
       \<lparr>typ_Object = ''tree'', pos_Object = NewVector3D 50 0 100\<rparr>]\<rparr>"

section \<open>Wrap-around\<close>



section \<open>What each phase leaves unchanged\<close>

lemma play_fields [simp]:
  "ticks (play a v r) = ticks r" "mute (play a v r) = mute r"
  "gameOver (play a v r) = gameOver r" "gage (play a v r) = gage r"
  "rush (play a v r) = rush r" "hitCountInRush (play a v r) = hitCountInRush r"
  "ticksAtHit (play a v r) = ticksAtHit r" "enemies (play a v r) = enemies r"
  "objects (play a v r) = objects r" "effects (play a v r) = effects r"
  "score (play a v r) = score r" "random (play a v r) = random r"
  by (simp_all add: play_def)

lemma appendObject_fields [simp]:
  "ticks (appendObject env ty x r) = ticks r" "mute (appendObject env ty x r) = mute r"
  "gameOver (appendObject env ty x r) = gameOver r" "gage (appendObject env ty x r) = gage r"
  "rush (appendObject env ty x r) = rush r"
  "hitCountInRush (appendObject env ty x r) = hitCountInRush r"
  "ticksAtHit (appendObject env ty x r) = ticksAtHit r"
  "enemies (appendObject env ty x r) = enemies r"
  "effects (appendObject env ty x r) = effects r" "score (appendObject env ty x r) = score r"
  "played (appendObject env ty x r) = played r"
  by (simp_all add: appendObject_def split_beta)

lemma spawnEnemy_fields [simp]:
  "ticks (spawnEnemy env r) = ticks r" "mute (spawnEnemy env r) = mute r"
  "gameOver (spawnEnemy env r) = gameOver r" "gage (spawnEnemy env r) = gage r"
  "rush (spawnEnemy env r) = rush r" "hitCountInRush (spawnEnemy env r) = hitCountInRush r"
  "ticksAtHit (spawnEnemy env r) = ticksAtHit r" "objects (spawnEnemy env r) = objects r"
  "effects (spawnEnemy env r) = effects r" "score (spawnEnemy env r) = score r"
  "played (spawnEnemy env r) = played r"
  by (simp_all add: spawnEnemy_def split_beta Let_def)

lemma spawnByChance_fields [simp]:
  "ticks (spawnByChance env ty r) = ticks r" "mute (spawnByChance env ty r) = mute r"
  "gameOver (spawnByChance env ty r) = gameOver r" "gage (spawnByChance env ty r) = gage r"
  "rush (spawnByChance env ty r) = rush r"
  "hitCountInRush (spawnByChance env ty r) = hitCountInRush r"
  "ticksAtHit (spawnByChance env ty r) = ticksAtHit r"
  "enemies (spawnByChance env ty r) = enemies r"
  "effects (spawnByChance env ty r) = effects r" "score (spawnByChance env ty r) = score r"
  "played (spawnByChance env ty r) = played r"
  by (simp_all add: spawnByChance_def split_beta Let_def)

lemma spawnStep_fields [simp]:
  "ticks (spawnStep env r) = ticks r" "mute (spawnStep env r) = mute r"
  "gameOver (spawnStep env r) = gameOver r" "gage (spawnStep env r) = gage r"
  "rush (spawnStep env r) = rush r" "hitCountInRush (spawnStep env r) = hitCountInRush r"
  "ticksAtHit (spawnStep env r) = ticksAtHit r"
  "effects (spawnStep env r) = effects r" "score (spawnStep env r) = score r"
  "played (spawnStep env r) = played r"
  by (simp_all add: spawnStep_def)

lemma moveStep_fields [simp]:
  "ticks (moveStep env r) = ticks r" "mute (moveStep env r) = mute r"
  "gameOver (moveStep env r) = gameOver r" "gage (moveStep env r) = gage r"
  "rush (moveStep env r) = rush r" "hitCountInRush (moveStep env r) = hitCountInRush r"
  "ticksAtHit (moveStep env r) = ticksAtHit r" "enemies (moveStep env r) = enemies r"
  "score (moveStep env r) = score r" "played (moveStep env r) = played r"
  "objects (moveStep env r) = map (BackgroundObject_update (rush r)) (objects r)"
  by (simp_all add: moveStep_def split_beta Let_def)

lemma pruneStep_fields [simp]:
  "ticks (pruneStep env r) = ticks r" "mute (pruneStep env r) = mute r"
  "gameOver (pruneStep env r) = gameOver r" "gage (pruneStep env r) = gage r"
  "rush (pruneStep env r) = rush r" "hitCountInRush (pruneStep env r) = hitCountInRush r"
  "ticksAtHit (pruneStep env r) = ticksAtHit r" "score (pruneStep env r) = score r"
  "random (pruneStep env r) = random r" "played (pruneStep env r) = played r"
  by (simp_all add: pruneStep_def)

lemma sortStep_fields [simp]:
  "ticks (sortStep r) = ticks r" "mute (sortStep r) = mute r"
  "gameOver (sortStep r) = gameOver r" "gage (sortStep r) = gage r"
  "rush (sortStep r) = rush r" "hitCountInRush (sortStep r) = hitCountInRush r"
  "ticksAtHit (sortStep r) = ticksAtHit r" "enemies (sortStep r) = enemies r"
  "effects (sortStep r) = effects r" "score (sortStep r) = score r"
  "random (sortStep r) = random r" "played (sortStep r) = played r"
  by (simp_all add: sortStep_def)

lemma hitEnemy_fields:
  "ticks (fst (hitEnemy env r e)) = ticks r" "mute (fst (hitEnemy env r e)) = mute r"
  "gameOver (fst (hitEnemy env r e)) = gameOver r" "gage (fst (hitEnemy env r e)) = gage r"
  "rush (fst (hitEnemy env r e)) = rush r"
  "hitCountInRush (fst (hitEnemy env r e)) = int64 (hitCountInRush r + 1)"
  "score (fst (hitEnemy env r e)) = int64 (score r + int64 (10 * int64 (hitCountInRush r + 1)))"
  "enemies (fst (hitEnemy env r e)) = enemies r" "objects (fst (hitEnemy env r e)) = objects r"
  "hit (snd (hitEnemy env r e))" "hitV (snd (hitEnemy env r e)) \<noteq> None"
  by (simp_all add: hitEnemy_def split_beta Let_def)

section \<open>Game over\<close>

lemma update_gameOver: "gameOver r \<Longrightarrow> update env r touches = Some r"
  by (simp add: update_def)

lemma run_gameOver: "gameOver r \<Longrightarrow> run env r ts = Some r"
  by (induction ts) (simp_all add: update_gameOver)

text \<open>
  C7. On a runner whose \<open>gameOver\<close> flag is set, \<open>update\<close> returns at once, whatever the
  touches: the runner it leaves is the one it found, field by field (the random source
  and the sounds played included). The flag is therefore never cleared: any number of
  further ticks leaves the same runner.
\<close>

theorem gameOver_update_noop:
  "gameOver r \<Longrightarrow> update env r touches = Some r \<and> run env r ts = Some r"
  by (simp add: update_gameOver run_gameOver)

theorem gameOver_update_noop_witness:
  "gameOver overRunner
   \<and> update sampleEnv overRunner touchBegun = Some overRunner
   \<and> run sampleEnv overRunner [touchBegun, touchReleased] = Some overRunner"
proof -
  have over: "gameOver overRunner"
    by (simp add: overRunner_def)
  show ?thesis
    by (rule conjI [OF over gameOver_update_noop [OF over]])
qed

section \<open>One pass of the collision loop\<close>


lemma Enemy_update_total:
  "hitVset e \<Longrightarrow> \<exists>e'. Enemy_update b e = Some e' \<and> hitVset e'"
  by (auto simp: Enemy_update_def hitVset_def Let_def split: if_splits option.splits)

lemma enemyStep_cases:
  assumes "enemyStep env r e = Some (r', e')"
  shows "(collides env e \<and> rush r \<and> r' = fst (hitEnemy env r e)
            \<and> Enemy_update (rush r) (snd (hitEnemy env r e)) = Some e')
       \<or> (collides env e \<and> \<not> rush r \<and> r' = r\<lparr>gameOver := True\<rparr>
            \<and> Enemy_update (rush r) e = Some e')
       \<or> (\<not> collides env e \<and> r' = r \<and> Enemy_update (rush r) e = Some e')"
  using assms
  by (auto simp: enemyStep_def hitEnemy_fields split_beta split: if_splits option.splits)

lemma enemyStep_frame:
  assumes "enemyStep env r e = Some (r', e')"
  shows "gage r' = gage r" "rush r' = rush r" "ticks r' = ticks r" "mute r' = mute r"
    "enemies r' = enemies r" "objects r' = objects r"
  using enemyStep_cases [OF assms] by (auto simp: hitEnemy_fields)

lemma enemyStep_gameOver:
  assumes "enemyStep env r e = Some (r', e')"
  shows "gameOver r' = (gameOver r \<or> (\<not> rush r \<and> collides env e))"
  using enemyStep_cases [OF assms] by (auto simp: hitEnemy_fields)

lemma enemyStep_score:
  assumes "enemyStep env r e = Some (r', e')"
  shows "hitCountInRush r' =
      (if rush r \<and> collides env e then int64 (hitCountInRush r + 1) else hitCountInRush r)"
    "score r' =
      (if rush r \<and> collides env e
       then int64 (score r + int64 (10 * int64 (hitCountInRush r + 1))) else score r)"
  using enemyStep_cases [OF assms] by (auto simp: hitEnemy_fields)


lemma enemyStep_total:
  assumes "hitVset e"
  shows "\<exists>r' e'. enemyStep env r e = Some (r', e') \<and> hitVset e'"
proof -
  have h: "hitVset (snd (hitEnemy env r e))"
    by (simp add: hitVset_def hitEnemy_fields)
  obtain e1 where e1: "Enemy_update (rush r) e = Some e1" "hitVset e1"
    using Enemy_update_total [OF assms] by blast
  obtain e2 where e2: "Enemy_update (rush r) (snd (hitEnemy env r e)) = Some e2" "hitVset e2"
    using Enemy_update_total [OF h] by blast
  show ?thesis
    using e1 e2 by (auto simp: enemyStep_def split_beta hitEnemy_fields)
qed

section \<open>The collision loop\<close>

lemma enemiesLoop_frame:
  "enemiesLoop env r es = Some (r', es') \<Longrightarrow>
     gage r' = gage r \<and> rush r' = rush r \<and> ticks r' = ticks r \<and> mute r' = mute r
     \<and> enemies r' = enemies r \<and> objects r' = objects r \<and> length es' = length es"
proof (induction es arbitrary: r r' es')
  case Nil
  then show ?case by simp
next
  case (Cons e es)
  from Cons.prems obtain r1 e1 r2 es2 where
    st: "enemyStep env r e = Some (r1, e1)" and
    lp: "enemiesLoop env r1 es = Some (r2, es2)" and
    eq: "r' = r2" "es' = e1 # es2"
    by (auto split: option.splits)
  show ?case
    using Cons.IH [OF lp] enemyStep_frame [OF st] eq by simp
qed

lemma enemiesLoop_gameOver:
  "enemiesLoop env r es = Some (r', es') \<Longrightarrow>
     gameOver r' = (gameOver r \<or> (\<not> rush r \<and> (\<exists>e \<in> set es. collides env e)))"
proof (induction es arbitrary: r r' es')
  case Nil
  then show ?case by simp
next
  case (Cons e es)
  from Cons.prems obtain r1 e1 r2 es2 where
    st: "enemyStep env r e = Some (r1, e1)" and
    lp: "enemiesLoop env r1 es = Some (r2, es2)" and
    eq: "r' = r2" "es' = e1 # es2"
    by (auto split: option.splits)
  show ?case
    using Cons.IH [OF lp] enemyStep_gameOver [OF st] enemyStep_frame(2) [OF st] eq by auto
qed

lemma streakGain_0 [simp]: "streakGain h 0 = 0"
  by (simp add: streakGain_def)



text \<open>While the runner is not rushing the loop leaves the streak and the score alone.\<close>

lemma enemiesLoop_idle:
  "enemiesLoop env r es = Some (r', es') \<Longrightarrow> \<not> rush r \<Longrightarrow>
     hitCountInRush r' = hitCountInRush r \<and> score r' = score r"
proof (induction es arbitrary: r r' es')
  case Nil
  then show ?case by simp
next
  case (Cons e es)
  from Cons.prems(1) obtain r1 e1 r2 es2 where
    st: "enemyStep env r e = Some (r1, e1)" and
    lp: "enemiesLoop env r1 es = Some (r2, es2)" and
    eq: "r' = r2" "es' = e1 # es2"
    by (auto split: option.splits)
  show ?case
    using Cons.IH [OF lp] enemyStep_score [OF st] enemyStep_frame(2) [OF st] eq Cons.prems(2)
    by simp
qed



lemma enemiesLoop_total:
  "list_all hitVset es \<Longrightarrow>
     \<exists>r' es'. enemiesLoop env r es = Some (r', es') \<and> list_all hitVset es'"
proof (induction es arbitrary: r)
  case Nil
  then show ?case by simp
next
  case (Cons e es)
  then obtain r1 e1 where st: "enemyStep env r e = Some (r1, e1)" "hitVset e1"
    using enemyStep_total [of e env r] by auto
  from Cons obtain r2 es2 where lp: "enemiesLoop env r1 es = Some (r2, es2)" "list_all hitVset es2"
    by fastforce
  show ?case using st lp by simp
qed

section \<open>Pruning, the gauge and the spawns\<close>

lemma compaction_filter_from:
  "k \<le> i \<Longrightarrow> compaction keep arr i k = take k arr @ filter keep (drop i arr)"
proof (induction keep arr i k rule: compaction.induct)
  case (1 keep arr i k)
  show ?case
  proof (cases "i < length arr")
    case False
    then show ?thesis by simp
  next
    case inb: True
    have dr: "drop i arr = arr ! i # drop (Suc i) arr"
      using inb by (simp add: Cons_nth_drop_Suc)
    show ?thesis
    proof (cases "keep (arr ! i)")
      case True
      have kl: "k < length arr" using inb "1.prems" by simp
      have "compaction keep arr i k = compaction keep (arr[k := arr ! i]) (i + 1) (k + 1)"
        using inb True by simp
      also have "\<dots> = take (k + 1) (arr[k := arr ! i]) @ filter keep (drop (i + 1) (arr[k := arr ! i]))"
        using "1.IH"(1) [OF inb True] "1.prems" by simp
      also have "take (k + 1) (arr[k := arr ! i]) = take k arr @ [arr ! i]"
        using kl by (simp add: take_Suc_conv_app_nth)
      also have "drop (i + 1) (arr[k := arr ! i]) = drop (Suc i) arr"
        using "1.prems" by simp
      finally show ?thesis using dr True by simp
    next
      case False
      have "compaction keep arr i k = compaction keep arr (i + 1) k"
        using inb False by simp
      also have "\<dots> = take k arr @ filter keep (drop (i + 1) arr)"
        using "1.IH"(2) [OF inb False] "1.prems" by simp
      finally show ?thesis using dr False by simp
    qed
  qed
qed

lemma compaction_filter: "compaction keep arr 0 0 = filter keep arr"
  by (simp add: compaction_filter_from del: compaction.simps)

lemma pruneStep_lists:
  "enemies (pruneStep env r) = filter keepEnemy (enemies r)"
  "objects (pruneStep env r) = filter (keepObject env) (objects r)"
  "effects (pruneStep env r) = filter (keepEffect env) (effects r)"
  by (simp_all add: pruneStep_def compaction_filter del: compaction.simps)

lemma chargeStep_fields [simp]:
  "ticks (chargeStep r t) = ticks r" "mute (chargeStep r t) = mute r"
  "gameOver (chargeStep r t) = gameOver r"
  "hitCountInRush (chargeStep r t) = hitCountInRush r"
  "ticksAtHit (chargeStep r t) = ticksAtHit r" "enemies (chargeStep r t) = enemies r"
  "objects (chargeStep r t) = objects r" "effects (chargeStep r t) = effects r"
  "score (chargeStep r t) = score r" "random (chargeStep r t) = random r"
  by (simp_all add: chargeStep_def Let_def)

lemma chargeStep_gage:
  "gage (chargeStep r t) =
    (if AnyTouchesJustTouched t \<or> (0 < gage r \<and> AnyTouchesActive t)
     then min (gage r + 1) gageMax else gage r)"
  by (simp add: chargeStep_def Let_def min_def)

lemma chargeStep_rush:
  "rush (chargeStep r t) = (rush r \<or> (0 < gage (chargeStep r t) \<and> AllTouchesJustReleased t))"
  by (auto simp: chargeStep_def Let_def gageMax_def)

lemma rushStep_fields [simp]:
  "ticks (rushStep env r) = ticks r" "mute (rushStep env r) = mute r"
  "gameOver (rushStep env r) = gameOver r"
  "ticksAtHit (rushStep env r) = ticksAtHit r" "enemies (rushStep env r) = enemies r"
  "objects (rushStep env r) = objects r" "score (rushStep env r) = score r"
  by (simp_all add: rushStep_def Let_def split_beta)

lemma rushStep_gage:
  "gage (rushStep env r) = (if 1 < gage r then gage r - 1 else 0)"
  "rush (rushStep env r) = (rush r \<and> 1 < gage r)"
  "hitCountInRush (rushStep env r) = (if 1 < gage r then hitCountInRush r else 0)"
  by (auto simp: rushStep_def Let_def split_beta)

lemma gaugeStep_fields [simp]:
  "ticks (gaugeStep env r t) = ticks r" "mute (gaugeStep env r t) = mute r"
  "gameOver (gaugeStep env r t) = gameOver r"
  "ticksAtHit (gaugeStep env r t) = ticksAtHit r" "enemies (gaugeStep env r t) = enemies r"
  "objects (gaugeStep env r t) = objects r" "score (gaugeStep env r t) = score r"
  by (simp_all add: gaugeStep_def)

lemma beforeCollisions_fields [simp]:
  "ticks (beforeCollisions env r t) = ticks r + 1"
  "mute (beforeCollisions env r t) = mute r"
  "gameOver (beforeCollisions env r t) = gameOver r"
  "score (beforeCollisions env r t) = score r"
  "gage (beforeCollisions env r t) = gage (gaugeStep env r t)"
  "rush (beforeCollisions env r t) = rush (gaugeStep env r t)"
  "hitCountInRush (beforeCollisions env r t) = hitCountInRush (gaugeStep env r t)"
  by (simp_all add: beforeCollisions_def gaugeStep_def chargeStep_gage chargeStep_rush rushStep_gage)

section \<open>One tick\<close>

lemma update_Some:
  assumes "\<not> gameOver r" "update env r t = Some r'"
  obtains r1 es where
    "enemiesLoop env (beforeCollisions env r t) (enemies (beforeCollisions env r t)) = Some (r1, es)"
    "r' = sortStep (pruneStep env (moveStep env (r1\<lparr>enemies := es\<rparr>)))"
  using assms by (auto simp: update_def collisionStep_def split: option.splits)

lemma update_gage:
  assumes "\<not> gameOver r" "update env r t = Some r'"
  shows "gage r' = gage (gaugeStep env r t)" "rush r' = rush (gaugeStep env r t)"
    "ticks r' = ticks r + 1" "mute r' = mute r"
proof -
  obtain r1 es where
    lp: "enemiesLoop env (beforeCollisions env r t) (enemies (beforeCollisions env r t)) = Some (r1, es)"
    and r': "r' = sortStep (pruneStep env (moveStep env (r1\<lparr>enemies := es\<rparr>)))"
    using assms by (rule update_Some)
  show "gage r' = gage (gaugeStep env r t)" "rush r' = rush (gaugeStep env r t)"
    "ticks r' = ticks r + 1" "mute r' = mute r"
    using enemiesLoop_frame [OF lp] r' by simp_all
qed

lemma update_gameOver_iff:
  assumes "\<not> gameOver r" "update env r t = Some r'"
  shows "gameOver r' =
     (\<not> rush (beforeCollisions env r t)
      \<and> (\<exists>e \<in> set (enemies (beforeCollisions env r t)). collides env e))"
proof -
  obtain r1 es where
    lp: "enemiesLoop env (beforeCollisions env r t) (enemies (beforeCollisions env r t)) = Some (r1, es)"
    and r': "r' = sortStep (pruneStep env (moveStep env (r1\<lparr>enemies := es\<rparr>)))"
    using assms by (rule update_Some)
  show ?thesis
    using enemiesLoop_gameOver [OF lp] r' assms(1) by simp
qed

lemma update_score_idle:
  assumes "\<not> gameOver r" "update env r t = Some r'" "\<not> rush (beforeCollisions env r t)"
  shows "hitCountInRush r' = hitCountInRush (beforeCollisions env r t)" "score r' = score r"
proof -
  obtain r1 es where
    lp: "enemiesLoop env (beforeCollisions env r t) (enemies (beforeCollisions env r t)) = Some (r1, es)"
    and r': "r' = sortStep (pruneStep env (moveStep env (r1\<lparr>enemies := es\<rparr>)))"
    using assms(1,2) by (rule update_Some)
  show "hitCountInRush r' = hitCountInRush (beforeCollisions env r t)" "score r' = score r"
    using enemiesLoop_idle [OF lp assms(3)] r' by (simp_all del: beforeCollisions_fields(5-7))
qed


lemma spawnEnemy_hitVset:
  "list_all hitVset (enemies r) \<Longrightarrow> list_all hitVset (enemies (spawnEnemy env r))"
  by (simp add: spawnEnemy_def split_beta Let_def hitVset_def)

lemma beforeCollisions_wellFormed:
  "wellFormed r \<Longrightarrow> list_all hitVset (enemies (beforeCollisions env r t))"
  by (simp add: wellFormed_def beforeCollisions_def spawnStep_def spawnEnemy_hitVset)

lemma update_total:
  assumes "wellFormed r"
  shows "\<exists>r'. update env r t = Some r' \<and> wellFormed r'"
proof (cases "gameOver r")
  case True
  then show ?thesis using assms by (simp add: update_gameOver)
next
  case False
  obtain r1 es where
    lp: "enemiesLoop env (beforeCollisions env r t) (enemies (beforeCollisions env r t)) = Some (r1, es)"
    and es: "list_all hitVset es"
    using enemiesLoop_total [OF beforeCollisions_wellFormed [OF assms]] by blast
  have "update env r t = Some (sortStep (pruneStep env (moveStep env (r1\<lparr>enemies := es\<rparr>))))"
    using False lp by (simp add: update_def collisionStep_def)
  moreover have "wellFormed (sortStep (pruneStep env (moveStep env (r1\<lparr>enemies := es\<rparr>))))"
    using es by (simp add: wellFormed_def pruneStep_lists list_all_iff)
  ultimately show ?thesis by blast
qed

lemma run_total:
  "wellFormed r \<Longrightarrow> \<exists>r'. run env r ts = Some r' \<and> wellFormed r'"
proof (induction ts arbitrary: r)
  case Nil
  then show ?case by simp
next
  case (Cons t ts)
  obtain r1 where "update env r t = Some r1" "wellFormed r1"
    using update_total [OF Cons.prems] by blast
  then show ?case using Cons.IH [of r1] by simp
qed

lemma run_snoc:
  "run env r (ts @ [t]) = (case run env r ts of None \<Rightarrow> None | Some r1 \<Rightarrow> update env r1 t)"
  by (induction ts arbitrary: r) (simp_all split: option.splits)

section \<open>The gauge\<close>

lemma gaugeStep_gage:
  "gage (gaugeStep env r t) =
    (if rush r then (if 1 < gage r then gage r - 1 else 0)
     else if AnyTouchesJustTouched t \<or> (0 < gage r \<and> AnyTouchesActive t)
       then min (gage r + 1) gageMax else gage r)"
  by (simp add: gaugeStep_def chargeStep_gage rushStep_gage)

lemma gaugeStep_bounds:
  assumes "0 \<le> gage r" "gage r \<le> gageMax"
  shows "0 \<le> gage (gaugeStep env r t)" "gage (gaugeStep env r t) \<le> gageMax"
  using assms by (auto simp: gaugeStep_gage gageMax_def)

lemma update_bounds:
  assumes "0 \<le> gage r" "gage r \<le> gageMax" "update env r t = Some r'"
  shows "0 \<le> gage r' \<and> gage r' \<le> gageMax"
proof (cases "gameOver r")
  case True
  then show ?thesis using assms by (simp add: update_gameOver)
next
  case False
  then show ?thesis
    using update_gage(1) [OF False assms(3)] gaugeStep_bounds [OF assms(1,2)] by simp
qed

lemma run_bounds:
  "0 \<le> gage r \<Longrightarrow> gage r \<le> gageMax \<Longrightarrow> run env r ts = Some r' \<Longrightarrow>
     0 \<le> gage r' \<and> gage r' \<le> gageMax"
proof (induction ts arbitrary: r)
  case Nil
  then show ?case by simp
next
  case (Cons t ts)
  from Cons.prems(3) obtain r1 where
    st: "update env r t = Some r1" and rest: "run env r1 ts = Some r'"
    by (auto split: option.splits)
  have "0 \<le> gage r1 \<and> gage r1 \<le> gageMax"
    using update_bounds [OF Cons.prems(1,2) st] .
  then show ?case using Cons.IH [OF _ _ rest] by simp
qed

lemma populate_fields [simp]:
  "gage (populate env ty n r) = gage r" "enemies (populate env ty n r) = enemies r"
  "gameOver (populate env ty n r) = gameOver r" "rush (populate env ty n r) = rush r"
  "score (populate env ty n r) = score r"
  "hitCountInRush (populate env ty n r) = hitCountInRush r"
  by (induction n arbitrary: r; simp add: split_beta Let_def)+

lemma newGameRunner_fields [simp]:
  "gage (newGameRunner env g m) = 0" "enemies (newGameRunner env g m) = []"
  "gameOver (newGameRunner env g m) = False" "rush (newGameRunner env g m) = False"
  "score (newGameRunner env g m) = 0" "hitCountInRush (newGameRunner env g m) = 0"
  by (simp_all add: newGameRunner_def)

lemma newGameRunner_wellFormed: "wellFormed (newGameRunner env g m)"
  by (simp add: wellFormed_def)

text \<open>
  C1. Every state a runner reaches has its gauge within bounds. A runner starts as
  \<open>newGameRunner\<close> builds it and is changed by \<open>update\<close> only; whatever the environment,
  the seed, the mute flag and the touches of each tick, the run of ticks returns a
  runner (it does not panic) and its gauge is at least 0 and at most \<open>gageMax\<close>. Charging
  stops at \<open>gageMax\<close> and a rush stops at 0.
\<close>

theorem gage_within_bounds:
  "\<exists>r. run env (newGameRunner env g m) ts = Some r \<and> 0 \<le> gage r \<and> gage r \<le> gageMax"
proof -
  have wf: "wellFormed (newGameRunner env g m)"
    by (rule newGameRunner_wellFormed)
  obtain r where r: "run env (newGameRunner env g m) ts = Some r"
    using run_total [OF wf, of env ts] by blast
  have "0 \<le> gage r \<and> gage r \<le> gageMax"
    by (rule run_bounds [OF _ _ r]) (simp_all add: gageMax_def)
  with r show ?thesis by blast
qed

theorem gage_within_bounds_witness:
  "\<exists>r. run sampleEnv (newGameRunner sampleEnv 1 True) [touchBegun, touchHeld, touchReleased, noTouch]
          = Some r \<and> 0 \<le> gage r \<and> gage r \<le> gageMax"
  by (rule gage_within_bounds)

subsection \<open>The length of a rush\<close>

lemma rush_tick:
  assumes "rush r" "\<not> gameOver r" "update env r t = Some r'"
  shows "gage r' = (if 1 < gage r then gage r - 1 else 0)"
    "rush r' = (1 < gage r)"
    "gameOver r' = (\<not> 1 < gage r \<and> (\<exists>e \<in> set (enemies (beforeCollisions env r t)). collides env e))"
    "\<not> 1 < gage r \<Longrightarrow> hitCountInRush r' = 0"
proof -
  show "gage r' = (if 1 < gage r then gage r - 1 else 0)" "rush r' = (1 < gage r)"
    using update_gage(1,2) [OF assms(2,3)] assms(1) by (simp_all add: gaugeStep_def rushStep_gage)
  show "gameOver r' = (\<not> 1 < gage r \<and> (\<exists>e \<in> set (enemies (beforeCollisions env r t)). collides env e))"
    using update_gameOver_iff [OF assms(2,3)] assms(1) by (simp add: gaugeStep_def rushStep_gage)
  show "hitCountInRush r' = 0" if "\<not> 1 < gage r"
    using update_score_idle(1) [OF assms(2,3)] assms(1) that
    by (simp add: gaugeStep_def rushStep_gage)
qed

text \<open>
  C2. A rush ends, after as many ticks as the gauge held. From a runner that is rushing
  with gauge \<open>g > 0\<close> and not game over, every run of \<open>n \<le> g\<close> ticks returns a runner
  whose gauge is \<open>g - n\<close>: one less per tick, whatever the touches. While \<open>n < g\<close> the rush
  flag is still set and the game is not over; at \<open>n = g\<close> the gauge is 0, the rush flag is
  cleared and \<open>hitCountInRush\<close> is 0. With \<open>g = 300\<close> that is tick 300.
\<close>

theorem rush_lasts_gage_ticks:
  assumes "wellFormed r" "rush r" "\<not> gameOver r" "0 < gage r" "int (length ts) \<le> gage r"
  shows "\<exists>r'. run env r ts = Some r'
          \<and> gage r' = gage r - int (length ts)
          \<and> rush r' = (int (length ts) < gage r)
          \<and> (int (length ts) < gage r \<longrightarrow> \<not> gameOver r')
          \<and> (int (length ts) = gage r \<longrightarrow> hitCountInRush r' = 0)"
  using assms
proof (induction ts arbitrary: r)
  case Nil
  then show ?case by simp
next
  case (Cons t ts)
  obtain r1 where st: "update env r t = Some r1" and wf1: "wellFormed r1"
    using update_total [OF Cons.prems(1)] by blast
  note tick = rush_tick [OF Cons.prems(2,3) st]
  show ?case
  proof (cases "1 < gage r")
    case True
    have "\<exists>r'. run env r1 ts = Some r'
          \<and> gage r' = gage r1 - int (length ts)
          \<and> rush r' = (int (length ts) < gage r1)
          \<and> (int (length ts) < gage r1 \<longrightarrow> \<not> gameOver r')
          \<and> (int (length ts) = gage r1 \<longrightarrow> hitCountInRush r' = 0)"
      using True tick Cons.prems(5) by (intro Cons.IH [OF wf1]) simp_all
    then show ?thesis using st True tick(1) by auto
  next
    case False
    then have one: "gage r = 1"
      using Cons.prems(4) by simp
    then have "int (length ts) \<le> 0"
      using Cons.prems(5) by simp
    then have nil: "ts = []"
      by simp
    show ?thesis using st tick False one nil by simp
  qed
qed

theorem rush_lasts_gage_ticks_witness:
  "wellFormed rushRunner \<and> rush rushRunner \<and> \<not> gameOver rushRunner \<and> gage rushRunner = 300
   \<and> (\<exists>r'. run sampleEnv rushRunner (replicate 300 noTouch) = Some r'
          \<and> gage r' = 0 \<and> \<not> rush r' \<and> hitCountInRush r' = 0)"
proof -
  have h: "wellFormed rushRunner" "rush rushRunner" "\<not> gameOver rushRunner"
    "0 < gage rushRunner" "int (length (replicate 300 noTouch)) \<le> gage rushRunner"
    by (simp_all add: rushRunner_def sampleRunner_def wellFormed_def)
  have g: "gage rushRunner = 300"
    by (simp add: rushRunner_def)
  from rush_lasts_gage_ticks [OF h, of sampleEnv] g
  have "\<exists>r'. run sampleEnv rushRunner (replicate 300 noTouch) = Some r'
          \<and> gage r' = 0 \<and> \<not> rush r' \<and> hitCountInRush r' = 0"
    by auto
  with h g show ?thesis by simp
qed

section \<open>Evaluating the model on the sample states\<close>

lemmas eval_defs =
  update_def beforeCollisions_def gaugeStep_def rushStep_def chargeStep_def spawnStep_def
  spawnEnemy_def spawnByChance_def appendObject_def createBackgroundObject_def collisionStep_def
  enemyStep_def hitEnemy_def collides_def Enemy_update_def moveStep_def pruneStep_lists
  sortStep_def play_def keepObject_def keepEnemy_def keepEffect_def BackgroundObject_update_def
  Add2D_def Sub2D_def Add3D_def NewVector2D_def NewVector3D_def
  screenWidth_def screenHeight_def rhinoX_def rhinoY_def rhinoR_def rhinoSpeed_def
  rhinoRushSpeed_def enemyR_def gageMax_def cameraY_def screenZ_def
  sampleEnv_def sampleRunner_def noTouch_def touchBegun_def touchHeld_def touchReleased_def
  objectsRunner_def nearEnemy_def fallingEnemy_def landedEnemy_def movedEnemy_def fallingRunner_def rushRunner_def idleNear_def rushNear_def overRunner_def
  wellFormed_def hitVset_def int64_def Let_def split_beta

section \<open>Game over by collision\<close>

text \<open>
  What the collision loop finds: the rush flag as the gauge step of the same tick has
  left it, and the enemies of the runner, with the enemy spawned in this tick, if any,
  at the end.
\<close>

lemma beforeCollisions_rush:
  "rush (beforeCollisions env r t) =
    (if rush r then 1 < gage r
     else 0 < gage (chargeStep r t) \<and> AllTouchesJustReleased t)"
  by (simp add: gaugeStep_def rushStep_gage chargeStep_rush)


text \<open>
  C3. A tick sets \<open>gameOver\<close> exactly when, at the collision loop, the rush flag is not
  set and some enemy that is not yet hit collides: its capsule swept from \<open>prevPos\<close> to
  \<open>pos\<close> with radius \<open>enemyR\<close> meets the capsule of radius \<open>rhinoR\<close> resting at
  \<open>(rhinoX, rhinoY)\<close>. The rush flag and the enemies are those the loop finds, after the
  gauge step and the spawns of the same tick. Nothing else in the tick sets the flag.
\<close>

theorem gameOver_iff_collision_not_rushing:
  assumes "wellFormed r" "\<not> gameOver r"
  shows "\<exists>r'. update env r touches = Some r'
          \<and> gameOver r' =
               (\<not> rush (beforeCollisions env r touches)
                \<and> (\<exists>e \<in> set (enemies (beforeCollisions env r touches)).
                      \<not> hit e
                      \<and> CapsulesCollide env (NewVector2D rhinoX rhinoY) (NewVector2D 0 0) rhinoR
                          (prevPos e) (Sub2D (pos e) (prevPos e)) enemyR))"
proof -
  obtain r' where r': "update env r touches = Some r'"
    using update_total [OF assms(1)] by blast
  show ?thesis
    using update_gameOver_iff [OF assms(2) r'] r' by (simp add: collides_def)
qed

theorem gameOver_iff_collision_not_rushing_witness:
  "wellFormed idleNear \<and> \<not> gameOver idleNear
   \<and> map_option gameOver (update sampleEnv idleNear touchHeld) = Some True
   \<and> wellFormed rushNear \<and> \<not> gameOver rushNear
   \<and> map_option gameOver (update sampleEnv rushNear touchHeld) = Some False"
proof -
  have i: "wellFormed idleNear" "\<not> gameOver idleNear"
    by (simp_all add: eval_defs)
  have r: "wellFormed rushNear" "\<not> gameOver rushNear"
    by (simp_all add: eval_defs)
  have bi: "\<not> rush (beforeCollisions sampleEnv idleNear touchHeld)"
    "enemies (beforeCollisions sampleEnv idleNear touchHeld) = [nearEnemy]"
    by (simp_all add: eval_defs)
  have br: "rush (beforeCollisions sampleEnv rushNear touchHeld)"
    by (simp add: eval_defs)
  have c: "\<not> hit nearEnemy"
    "CapsulesCollide sampleEnv (NewVector2D rhinoX rhinoY) (NewVector2D 0 0) rhinoR
       (prevPos nearEnemy) (Sub2D (pos nearEnemy) (prevPos nearEnemy)) enemyR"
    by (simp_all add: eval_defs)
  have "map_option gameOver (update sampleEnv idleNear touchHeld) = Some True"
    using gameOver_iff_collision_not_rushing [OF i, of sampleEnv touchHeld] bi c by auto
  moreover have "map_option gameOver (update sampleEnv rushNear touchHeld) = Some False"
    using gameOver_iff_collision_not_rushing [OF r, of sampleEnv touchHeld] br by auto
  ultimately show ?thesis using i r by simp
qed

section \<open>Charging\<close>

text \<open>
  C5, as the code has it. While charging (the rush flag not set, the game not over), a
  tick raises the gauge by exactly 1, stopping at \<open>gageMax\<close>, when a touch has just begun,
  or when the gauge is already above 0 and a touch is active. On every other tick the
  gauge is unchanged: at gauge 0 a touch that is active but did not begin on that tick
  does not charge.
\<close>

theorem charging_raises_gage:
  assumes "wellFormed r" "\<not> gameOver r" "\<not> rush r"
  shows "\<exists>r'. update env r touches = Some r'
          \<and> gage r' =
               (if AnyTouchesJustTouched touches \<or> (0 < gage r \<and> AnyTouchesActive touches)
                then min (gage r + 1) gageMax else gage r)"
proof -
  obtain r' where r': "update env r touches = Some r'"
    using update_total [OF assms(1)] by blast
  show ?thesis
    using update_gage(1) [OF assms(2) r'] r' assms(3) by (simp add: gaugeStep_gage)
qed

theorem charging_raises_gage_witness:
  "wellFormed sampleRunner \<and> \<not> gameOver sampleRunner \<and> \<not> rush sampleRunner
   \<and> gage sampleRunner = 0
   \<and> map_option gage (update sampleEnv sampleRunner touchBegun) = Some 1"
proof -
  have h: "wellFormed sampleRunner" "\<not> gameOver sampleRunner" "\<not> rush sampleRunner"
    by (simp_all add: eval_defs)
  have g: "gage sampleRunner = 0" "AnyTouchesJustTouched touchBegun"
    by (simp_all add: eval_defs)
  have "map_option gage (update sampleEnv sampleRunner touchBegun) = Some 1"
    using charging_raises_gage [OF h, of sampleEnv touchBegun] g by (auto simp: gageMax_def)
  then show ?thesis using h g by simp
qed

text \<open>
  The claim as stated fails at gauge 0 under a held touch: the touch is active, the
  runner is charging, and the gauge after the tick is 0, not 1.
\<close>

theorem held_touch_at_zero_does_not_charge:
  "\<not> rush sampleRunner \<and> \<not> gameOver sampleRunner \<and> gage sampleRunner = 0
   \<and> AnyTouchesActive touchHeld \<and> \<not> AnyTouchesJustTouched touchHeld
   \<and> map_option gage (update sampleEnv sampleRunner touchHeld) = Some 0
   \<and> map_option gage (update sampleEnv sampleRunner touchHeld)
       \<noteq> Some (min (gage sampleRunner + 1) gageMax)"
  by (simp add: eval_defs)

section \<open>The score\<close>



subsection \<open>The enemies not yet hit\<close>







subsection \<open>The first 900 million ticks\<close>










text \<open>
  The model wraps where the code does: six below \<open>2^63\<close>, a hit worth 40 leaves a
  negative score.
\<close>

lemma score_wraps_at_int64:
  "map_option score (update sampleEnv (rushNear\<lparr>score := 9223372036854775802\<rparr>) noTouch)
     = Some (- 9223372036854775774)"
  by (simp add: eval_defs)



section \<open>Pruning the enemies\<close>

lemma update_enemies:
  assumes "\<not> gameOver r" "update env r t = Some r'"
  shows "\<exists>r1. collisionStep env (beforeCollisions env r t) = Some r1
           \<and> enemies r' = filter keepEnemy (enemies r1)"
  using assms by (auto simp: update_def pruneStep_lists split: option.splits)

text \<open>
  C9, as the code has it. The prune keeps an enemy exactly when its vertical position
  is less than \<open>screenHeight + 100 = 580\<close>: an enemy whose position is 580 or more is
  removed, so an enemy hit at \<open>y = 370\<close> is kept until its position has reached 580. The loop compacts the slice in place, and what it leaves is the list of
  the kept enemies in their former order. In a tick, the enemies pruned are those the
  collision loop has just updated.
\<close>

theorem prune_keeps_enemies_below_580:
  assumes "wellFormed r" "\<not> gameOver r"
  shows "(\<exists>r1 r'. collisionStep env (beforeCollisions env r touches) = Some r1
            \<and> update env r touches = Some r'
            \<and> enemies r' = filter (\<lambda>e. Y (pos e) < 580) (enemies r1))
       \<and> enemies (pruneStep env r) = compaction keepEnemy (enemies r) 0 0
       \<and> compaction keepEnemy (enemies r) 0 0 = filter (\<lambda>e. Y (pos e) < 580) (enemies r)
       \<and> screenHeight + 100 = 580"
proof -
  have k: "keepEnemy = (\<lambda>e. Y (pos e) < 580)"
    by (rule ext) (simp add: keepEnemy_def screenHeight_def)
  obtain r' where r': "update env r touches = Some r'"
    using update_total [OF assms(1)] by blast
  obtain r1 where "collisionStep env (beforeCollisions env r touches) = Some r1"
    "enemies r' = filter keepEnemy (enemies r1)"
    using update_enemies [OF assms(2) r'] by blast
  then have tick: "\<exists>r1 r'. collisionStep env (beforeCollisions env r touches) = Some r1
            \<and> update env r touches = Some r'
            \<and> enemies r' = filter (\<lambda>e. Y (pos e) < 580) (enemies r1)"
    using r' k by auto
  have "enemies (pruneStep env r) = compaction keepEnemy (enemies r) 0 0"
    by (simp add: pruneStep_def)
  moreover have "compaction keepEnemy (enemies r) 0 0 = filter (\<lambda>e. Y (pos e) < 580) (enemies r)"
    using k by (simp add: compaction_filter del: compaction.simps)
  moreover have "screenHeight + 100 = 580"
    by (simp add: screenHeight_def)
  ultimately show ?thesis using tick by (intro conjI)
qed

theorem prune_keeps_enemies_below_580_witness:
  "wellFormed fallingRunner \<and> \<not> gameOver fallingRunner
   \<and> map_option enemies (collisionStep sampleEnv (beforeCollisions sampleEnv fallingRunner noTouch))
       = Some [landedEnemy, movedEnemy]
   \<and> map_option enemies (update sampleEnv fallingRunner noTouch) = Some [movedEnemy]"
proof -
  have h: "wellFormed fallingRunner" "\<not> gameOver fallingRunner"
    by (simp_all add: eval_defs)
  have c: "map_option enemies (collisionStep sampleEnv (beforeCollisions sampleEnv fallingRunner noTouch))
       = Some [landedEnemy, movedEnemy]"
    by (simp add: eval_defs)
  have f: "filter (\<lambda>e. Y (pos e) < 580) [landedEnemy, movedEnemy] = [movedEnemy]"
    by (simp add: eval_defs)
  from prune_keeps_enemies_below_580 [OF h, of sampleEnv noTouch, THEN conjunct1]
  have "map_option enemies (update sampleEnv fallingRunner noTouch) = Some [movedEnemy]"
    using c f by auto
  with h c show ?thesis by simp
qed

text \<open>
  The claim as stated fails on the line itself: the falling enemy moves to \<open>y = 580\<close>,
  which does not exceed 580, and the prune of the same tick removes it.
\<close>

theorem enemy_at_580_is_removed:
  "Enemy_update False fallingEnemy = Some landedEnemy
   \<and> Y (pos landedEnemy) = 580
   \<and> \<not> (screenHeight + 100 < Y (pos landedEnemy))
   \<and> compaction keepEnemy [landedEnemy] 0 0 = []
   \<and> map_option enemies (update sampleEnv (sampleRunner\<lparr>enemies := [fallingEnemy]\<rparr>) noTouch)
       = Some []"
  by (simp add: eval_defs)

section \<open>The hit flag\<close>








section \<open>The order of the background objects\<close>

lemma descendingZ_sort_key: "descendingZ (sort_key (\<lambda>ob. - Z3 (pos_Object ob)) obs)"
proof -
  have "sorted (map (\<lambda>ob. - Z3 (pos_Object ob)) (sort_key (\<lambda>ob. - Z3 (pos_Object ob)) obs))"
    by (rule sorted_sort_key)
  then show ?thesis
    by (simp add: descendingZ_def sorted_map)
qed

lemma sortStep_descendingZ: "descendingZ (objects (sortStep r))"
  by (simp add: sortStep_def descendingZ_sort_key)

lemma update_descendingZ:
  assumes "\<not> gameOver r" "update env r t = Some r'"
  shows "descendingZ (objects r')"
  using assms by (auto simp: update_def sortStep_descendingZ split: option.splits)

lemma run_descendingZ:
  "\<not> gameOver r \<or> descendingZ (objects r) \<Longrightarrow> ts \<noteq> [] \<Longrightarrow> run env r ts = Some r' \<Longrightarrow>
     descendingZ (objects r')"
proof (induction ts arbitrary: r)
  case Nil
  then show ?case by simp
next
  case (Cons t ts)
  from Cons.prems(3) obtain r1 where
    st: "update env r t = Some r1" and rest: "run env r1 ts = Some r'"
    by (auto split: option.splits)
  have one: "descendingZ (objects r1)"
  proof (cases "gameOver r")
    case True
    then show ?thesis using Cons.prems(1) st by (simp add: update_gameOver)
  next
    case False
    then show ?thesis using st by (rule update_descendingZ)
  qed
  show ?case
  proof (cases ts)
    case Nil
    then show ?thesis using rest one by simp
  next
    case (Cons a list)
    then show ?thesis using Cons.IH [OF _ _ rest] one by simp
  qed
qed

lemma descendingZ_filter_behind:
  "descendingZ obs \<Longrightarrow>
     filter (\<lambda>ob. Z3 (pos_Object ob) > c) obs = takeWhile (\<lambda>ob. Z3 (pos_Object ob) > c) obs"
proof (induction obs)
  case Nil
  then show ?case by simp
next
  case (Cons a obs)
  then have rest: "descendingZ obs" and le: "\<forall>b \<in> set obs. Z3 (pos_Object b) \<le> Z3 (pos_Object a)"
    by (simp_all add: descendingZ_def)
  show ?case
  proof (cases "Z3 (pos_Object a) > c")
    case True
    then show ?thesis using Cons.IH [OF rest] by simp
  next
    case False
    then have "\<forall>b \<in> set obs. \<not> Z3 (pos_Object b) > c"
      using le by fastforce
    then have "filter (\<lambda>ob. Z3 (pos_Object ob) > c) obs = []"
      by (simp add: filter_empty_conv)
    then show ?thesis using False by simp
  qed
qed

lemma descendingZ_filter_front:
  "descendingZ obs \<Longrightarrow>
     filter (\<lambda>ob. Z3 (pos_Object ob) \<le> c) obs = dropWhile (\<lambda>ob. Z3 (pos_Object ob) > c) obs"
proof (induction obs)
  case Nil
  then show ?case by simp
next
  case (Cons a obs)
  then have rest: "descendingZ obs" and le: "\<forall>b \<in> set obs. Z3 (pos_Object b) \<le> Z3 (pos_Object a)"
    by (simp_all add: descendingZ_def)
  show ?case
  proof (cases "Z3 (pos_Object a) > c")
    case True
    then show ?thesis using Cons.IH [OF rest] by simp
  next
    case False
    then have "\<forall>b \<in> set obs. Z3 (pos_Object b) \<le> c"
      using le by fastforce
    then have "filter (\<lambda>ob. Z3 (pos_Object ob) \<le> c) obs = obs"
      by (simp add: filter_id_conv)
    then show ?thesis using False by simp
  qed
qed

lemma drawnObjects_append [simp]: "drawnObjects (xs @ ys) = drawnObjects xs @ drawnObjects ys"
  by (induction xs rule: drawnObjects.induct) simp_all

lemma drawnObjects_objects [simp]: "drawnObjects (map draw_Object obs) = obs"
  by (induction obs) simp_all

lemma drawnObjects_enemies [simp]: "drawnObjects (map draw_Enemy es) = []"
  by (induction es) simp_all

lemma drawnObjects_effects [simp]: "drawnObjects (map draw_Effect fs) = []"
  by (induction fs) simp_all

lemma drawnObjects_draw:
  "drawnObjects (draw c r) =
     filter (\<lambda>ob. Z3 (pos_Object ob) > c) (objects r) @ filter (\<lambda>ob. Z3 (pos_Object ob) \<le> c) (objects r)"
  by (simp add: draw_def)

text \<open>
  C8. After a tick the background objects are in descending \<open>Z\<close>, and so is the order
  in which the next draw pass draws them. From a runner that is not game over, every
  run of one or more ticks returns a runner whose \<open>objects\<close> are in descending \<open>Z\<close> (a
  tick on a runner that is game over changes nothing, so the order of the last real
  tick stands). The draw pass of that runner draws, before the player, the objects
  with \<open>Z > rhinoZ\<close>, which are the front part of \<open>objects\<close>, and after the player and
  the enemies the objects with \<open>Z \<le> rhinoZ\<close>, which are the rest: the objects are drawn
  in the order of \<open>objects\<close>, far to near.
\<close>

theorem objects_drawn_in_descending_Z:
  assumes "wellFormed r" "\<not> gameOver r" "ts \<noteq> []"
  shows "\<exists>r'. run env r ts = Some r'
          \<and> descendingZ (objects r')
          \<and> draw rhinoZ r' =
               [drawBackground]
               @ map draw_Object (takeWhile (\<lambda>ob. Z3 (pos_Object ob) > rhinoZ) (objects r'))
               @ [drawRhino, drawGage]
               @ map draw_Enemy (enemies r')
               @ map draw_Object (dropWhile (\<lambda>ob. Z3 (pos_Object ob) > rhinoZ) (objects r'))
               @ map draw_Effect (effects r')
          \<and> drawnObjects (draw rhinoZ r') = objects r'
          \<and> descendingZ (drawnObjects (draw rhinoZ r'))"
proof -
  obtain r' where r': "run env r ts = Some r'"
    using run_total [OF assms(1)] by blast
  have d: "descendingZ (objects r')"
    using run_descendingZ [OF _ assms(3) r'] assms(2) by simp
  have behind: "filter (\<lambda>ob. Z3 (pos_Object ob) > rhinoZ) (objects r')
      = takeWhile (\<lambda>ob. Z3 (pos_Object ob) > rhinoZ) (objects r')"
    using d by (rule descendingZ_filter_behind)
  have front: "filter (\<lambda>ob. Z3 (pos_Object ob) \<le> rhinoZ) (objects r')
      = dropWhile (\<lambda>ob. Z3 (pos_Object ob) > rhinoZ) (objects r')"
    using d by (rule descendingZ_filter_front)
  have calls: "draw rhinoZ r' =
               [drawBackground]
               @ map draw_Object (takeWhile (\<lambda>ob. Z3 (pos_Object ob) > rhinoZ) (objects r'))
               @ [drawRhino, drawGage]
               @ map draw_Enemy (enemies r')
               @ map draw_Object (dropWhile (\<lambda>ob. Z3 (pos_Object ob) > rhinoZ) (objects r'))
               @ map draw_Effect (effects r')"
    by (simp only: draw_def behind front)
  have same: "drawnObjects (draw rhinoZ r') = objects r'"
    by (simp add: drawnObjects_draw behind front)
  show ?thesis
    using r' d calls same by simp
qed

theorem objects_drawn_in_descending_Z_witness:
  "wellFormed objectsRunner \<and> \<not> gameOver objectsRunner
   \<and> map (\<lambda>ob. Z3 (pos_Object ob)) (objects objectsRunner) = [30, 500, 100]
   \<and> map_option (\<lambda>r. map (\<lambda>ob. Z3 (pos_Object ob)) (objects r))
        (run sampleEnv objectsRunner [noTouch]) = Some [500, 100, 55, 30]
   \<and> map_option (\<lambda>r. map (\<lambda>ob. Z3 (pos_Object ob)) (drawnObjects (draw (500 / 13) r)))
        (run sampleEnv objectsRunner [noTouch]) = Some [500, 100, 55, 30]"
proof -
  have h: "wellFormed objectsRunner" "\<not> gameOver objectsRunner" "[noTouch] \<noteq> []"
    by (simp_all add: eval_defs)
  have z: "map (\<lambda>ob. Z3 (pos_Object ob)) (objects objectsRunner) = [30, 500, 100]"
    by (simp add: eval_defs)
  have u: "map_option (\<lambda>r. map (\<lambda>ob. Z3 (pos_Object ob)) (objects r))
        (run sampleEnv objectsRunner [noTouch]) = Some [500, 100, 55, 30]"
    by (simp add: eval_defs)
  from objects_drawn_in_descending_Z [OF h, of sampleEnv "500 / 13"]
  obtain r' where "run sampleEnv objectsRunner [noTouch] = Some r'"
    "drawnObjects (draw (500 / 13) r') = objects r'"
    by blast
  then show ?thesis using h z u by (simp del: run.simps)
qed

end
